theory Spec2Isabelle
  imports Complex_Main
begin

section \<open>Half-plane intersection (halfplane-intersect.py)\<close>

text \<open>
  The source file holds one function, \<open>halfplane_intersect(H)\<close>, and the module constant
  \<open>INF = 10**18\<close>. It works on objects of two classes, \<open>P\<close> (points) and \<open>L\<close>
  (lines with an origin \<open>o\<close> and a direction \<open>d\<close>), which it assumes to exist and which
  are not part of the source. The methods it calls on them (\<open>rot\<close>, \<open>angle\<close>, \<open>*\<close>,
  \<open>side\<close>, \<open>intersection\<close>, \<open>parallel\<close>) are therefore a parameter of the model, the
  record \<open>geom\<close>; a concrete instance written from the specification follows below.
  Coordinates are exact reals.
\<close>

subsection \<open>Data\<close>

datatype P = P (px: real) (py: real)

datatype L = L (o_l: P) (d_l: P)

datatype error = Invalid_Input | Degenerate_Geometry

record geom =
  rot :: "P \<Rightarrow> P"
  angle :: "P \<Rightarrow> real"
  dot :: "P \<Rightarrow> P \<Rightarrow> real"
  side :: "L \<Rightarrow> P \<Rightarrow> real"
  intersection :: "L \<Rightarrow> L \<Rightarrow> error + P"
  parallel :: "L \<Rightarrow> L \<Rightarrow> bool"

text \<open>
  Line objects are mutable and shared by reference: the heap is the list of all line
  objects, an address is an index into it, and the caller's list \<open>H\<close> is a list of
  addresses. Points are values (\<open>rot\<close> returns a new point).
\<close>

type_synonym addr = nat
type_synonym heap = "L list"

definition INF_c :: real where
  "INF_c = 10 ^ 18"

subsection \<open>The bounding halfplanes (source lines 34-39)\<close>

text \<open>
  \<open>bb = L(P(-INF, -INF), P(INF, 0))\<close> allocates one line object. Each of the four rounds
  of the loop appends the reference \<open>bb\<close> to \<open>H\<close> and then assigns rotated points to the
  fields of that same object.
\<close>

definition new_bb :: "heap \<Rightarrow> addr \<times> heap" where
  "new_bb hp = (length hp, hp @ [L (P (- INF_c) (- INF_c)) (P INF_c 0)])"

definition rotate_line :: "geom \<Rightarrow> L \<Rightarrow> L" where
  "rotate_line G l = L (rot G (o_l l)) (rot G (d_l l))"

fun add_bounding :: "geom \<Rightarrow> nat \<Rightarrow> addr \<Rightarrow> heap \<times> addr list \<Rightarrow> heap \<times> addr list" where
  "add_bounding G 0 bb (hp, H) = (hp, H)"
| "add_bounding G (Suc k) bb (hp, H) =
     add_bounding G k bb (hp[bb := rotate_line G (hp ! bb)], H @ [bb])"

subsection \<open>The sweep (source lines 46-67)\<close>

text \<open>\<open>while len(q) >= 2 and H[i].side(q[-1].intersection(q[-2])) > 0: q.pop()\<close>\<close>

function pop_back :: "geom \<Rightarrow> L \<Rightarrow> L list \<Rightarrow> error + L list" where
  "pop_back G h q =
     (if 2 \<le> length q then
        (case intersection G (last q) (last (butlast q)) of
           Inl e \<Rightarrow> Inl e
         | Inr p \<Rightarrow> if 0 < side G h p then pop_back G h (butlast q) else Inr q)
      else Inr q)"
  by pat_completeness auto
termination
  by (relation "measure (\<lambda>(G, h, q). length q)") auto

text \<open>\<open>while len(q) >= 2 and H[i].side(q[0].intersection(q[1])) > 0: q.pop(0)\<close>\<close>

function pop_front :: "geom \<Rightarrow> L \<Rightarrow> L list \<Rightarrow> error + L list" where
  "pop_front G h q =
     (if 2 \<le> length q then
        (case intersection G (hd q) (hd (tl q)) of
           Inl e \<Rightarrow> Inl e
         | Inr p \<Rightarrow> if 0 < side G h p then pop_front G h (tl q) else Inr q)
      else Inr q)"
  by pat_completeness auto
termination
  by (relation "measure (\<lambda>(G, h, q). length q)") auto

text \<open>
  The two loop tests, for a deque of at least two elements on which \<open>intersection\<close>
  returns a point.
\<close>

definition back_test :: "geom \<Rightarrow> L \<Rightarrow> L list \<Rightarrow> bool" where
  "back_test G h q =
     (case intersection G (last q) (last (butlast q)) of
        Inl e \<Rightarrow> False
      | Inr p \<Rightarrow> 0 < side G h p)"

definition front_test :: "geom \<Rightarrow> L \<Rightarrow> L list \<Rightarrow> bool" where
  "front_test G h q =
     (case intersection G (hd q) (hd (tl q)) of
        Inl e \<Rightarrow> False
      | Inr p \<Rightarrow> 0 < side G h p)"

text \<open>
  The parallel case and the append (source lines 57-67), on the deque left by the two
  loops. The outcomes of one round of the \<open>for\<close> loop are: \<open>return []\<close>, or the deque
  with which the next round starts (after \<open>continue\<close>, or after \<open>q.append(H[i])\<close>).
\<close>

datatype round = Return_Empty | Next_Round "L list"

definition parallel_case :: "geom \<Rightarrow> L \<Rightarrow> L list \<Rightarrow> round" where
  "parallel_case G h q =
     (if q \<noteq> [] \<and> parallel G h (last q) then
        (if dot G (d_l h) (d_l (last q)) < 0 then Return_Empty
         else if 0 < side G h (o_l (last q)) then Next_Round (butlast q @ [h])
         else Next_Round q)
      else Next_Round (q @ [h]))"

definition sweep_round :: "geom \<Rightarrow> L \<Rightarrow> L list \<Rightarrow> error + round" where
  "sweep_round G h q =
     (case pop_back G h q of
        Inl e \<Rightarrow> Inl e
      | Inr q1 \<Rightarrow>
          (case pop_front G h q1 of
             Inl e \<Rightarrow> Inl e
           | Inr q2 \<Rightarrow> Inr (parallel_case G h q2)))"

fun sweep :: "geom \<Rightarrow> L list \<Rightarrow> L list \<Rightarrow> error + round" where
  "sweep G [] q = Inr (Next_Round q)"
| "sweep G (h # hs) q =
     (case sweep_round G h q of
        Inl e \<Rightarrow> Inl e
      | Inr Return_Empty \<Rightarrow> Inr Return_Empty
      | Inr (Next_Round q') \<Rightarrow> sweep G hs q')"

subsection \<open>Final cleanup and the vertices (source lines 70-82)\<close>

text \<open>\<open>while len(q) >= 3 and q[0].side(q[-1].intersection(q[-2])) > 0: q.pop()\<close>\<close>

function trim_back :: "geom \<Rightarrow> L list \<Rightarrow> error + L list" where
  "trim_back G q =
     (if 3 \<le> length q then
        (case intersection G (last q) (last (butlast q)) of
           Inl e \<Rightarrow> Inl e
         | Inr p \<Rightarrow> if 0 < side G (hd q) p then trim_back G (butlast q) else Inr q)
      else Inr q)"
  by pat_completeness auto
termination
  by (relation "measure (\<lambda>(G, q). length q)") auto

text \<open>\<open>while len(q) >= 3 and q[-1].side(q[0].intersection(q[1])) > 0: q.pop(0)\<close>\<close>

function trim_front :: "geom \<Rightarrow> L list \<Rightarrow> error + L list" where
  "trim_front G q =
     (if 3 \<le> length q then
        (case intersection G (hd q) (hd (tl q)) of
           Inl e \<Rightarrow> Inl e
         | Inr p \<Rightarrow> if 0 < side G (last q) p then trim_front G (tl q) else Inr q)
      else Inr q)"
  by pat_completeness auto
termination
  by (relation "measure (\<lambda>(G, q). length q)") auto

text \<open>\<open>for i in range(n): ps.append(q[i].intersection(q[(i + 1) % n]))\<close>\<close>

fun vertices :: "geom \<Rightarrow> L list \<Rightarrow> nat list \<Rightarrow> error + P list" where
  "vertices G q [] = Inr []"
| "vertices G q (i # is) =
     (case intersection G (q ! i) (q ! ((i + 1) mod length q)) of
        Inl e \<Rightarrow> Inl e
      | Inr p \<Rightarrow>
          (case vertices G q is of
             Inl e \<Rightarrow> Inl e
           | Inr ps \<Rightarrow> Inr (p # ps)))"

definition finish :: "geom \<Rightarrow> L list \<Rightarrow> error + P list" where
  "finish G q =
     (case trim_back G q of
        Inl e \<Rightarrow> Inl e
      | Inr q1 \<Rightarrow>
          (case trim_front G q1 of
             Inl e \<Rightarrow> Inl e
           | Inr q2 \<Rightarrow>
               if length q2 < 3 then Inr []
               else vertices G q2 [0 ..< length q2]))"

declare pop_back.simps [simp del] pop_front.simps [simp del]
  trim_back.simps [simp del] trim_front.simps [simp del]

subsection \<open>The whole function\<close>

text \<open>
  \<open>augment\<close> is the state after source line 43: the heap with the bounding object, and the
  caller's list with the four references appended and sorted in place by
  \<open>line.d.angle()\<close> (Python's sort is stable, as is \<open>sort_key\<close>).
\<close>

definition augment :: "geom \<Rightarrow> heap \<Rightarrow> addr list \<Rightarrow> heap \<times> addr list" where
  "augment G hp H =
     (let (bb, hp1) = new_bb hp;
          (hp2, H2) = add_bounding G 4 bb (hp1, H)
      in (hp2, sort_key (\<lambda>a. angle G (d_l (hp2 ! a))) H2))"

definition run_sweep :: "geom \<Rightarrow> L list \<Rightarrow> error + P list" where
  "run_sweep G ls =
     (case sweep G ls [] of
        Inl e \<Rightarrow> Inl e
      | Inr Return_Empty \<Rightarrow> Inr []
      | Inr (Next_Round q) \<Rightarrow> finish G q)"

text \<open>
  The call returns the heap and the caller's list as the call leaves them, and the
  polygon (or the error raised by \<open>intersection\<close>).
\<close>

definition halfplane_intersect ::
    "geom \<Rightarrow> heap \<Rightarrow> addr list \<Rightarrow> heap \<times> addr list \<times> (error + P list)" where
  "halfplane_intersect G hp H =
     (let (hp', H') = augment G hp H
      in (hp', H', run_sweep G (map (\<lambda>a. hp' ! a) H')))"

subsection \<open>The classes \<open>P\<close> and \<open>L\<close>\<close>

text \<open>
  Modelled from the spec: the classes \<open>P\<close> and \<open>L\<close> are missing from the source, which
  only lists the methods it expects of them. The definitions below follow the data model
  and the component design of the specification: \<open>cross(a, b) = a.x*b.y - a.y*b.x\<close>, the
  inner product \<open>dot\<close> (the operator \<open>*\<close> of the source), \<open>rotate90 = (-y, x)\<close>,
  \<open>angle = atan2(y, x)\<close> with Python's value \<open>0\<close> at the zero vector,
  \<open>side(p) = cross(direction, p - origin)\<close>,
  \<open>parallel = (|cross(d1, d2)| <= tolerance)\<close>, and
  \<open>intersection = origin + direction * t\<close>, which fails with Degenerate-Geometry on
  parallel lines; the error taxonomy (\<open>error\<close> above) is the specification's too.
  For \<open>t\<close> the specification writes
  \<open>cross(other.direction, other.origin - origin) / cross(direction, other.direction)\<close>,
  whose point lies on the other line only when \<open>t = 0\<close>. The model takes
  \<open>t = cross(other.origin - origin, other.direction) / cross(direction, other.direction)\<close>,
  the solution of the system of the two lines, so that the method returns the
  intersection point of the two lines, as the source and the specification describe it
  (lemma \<open>intersection_on_both_lines\<close>).
\<close>

definition cross :: "P \<Rightarrow> P \<Rightarrow> real" where
  "cross a b = px a * py b - py a * px b"

definition dot_p :: "P \<Rightarrow> P \<Rightarrow> real" where
  "dot_p a b = px a * px b + py a * py b"

definition sub_p :: "P \<Rightarrow> P \<Rightarrow> P" where
  "sub_p a b = P (px a - px b) (py a - py b)"

definition add_p :: "P \<Rightarrow> P \<Rightarrow> P" where
  "add_p a b = P (px a + px b) (py a + py b)"

definition scale_p :: "P \<Rightarrow> real \<Rightarrow> P" where
  "scale_p a t = P (px a * t) (py a * t)"

definition rotate90 :: "P \<Rightarrow> P" where
  "rotate90 a = P (- py a) (px a)"

definition atan2 :: "real \<Rightarrow> real \<Rightarrow> real" where
  "atan2 y x =
     (if 0 < x then arctan (y / x)
      else if x < 0 then (if 0 \<le> y then arctan (y / x) + pi else arctan (y / x) - pi)
      else if 0 < y then pi / 2
      else if y < 0 then - (pi / 2)
      else 0)"

definition angle_p :: "P \<Rightarrow> real" where
  "angle_p a = atan2 (py a) (px a)"

definition side_l :: "L \<Rightarrow> P \<Rightarrow> real" where
  "side_l l p = cross (d_l l) (sub_p p (o_l l))"

definition parallel_l :: "real \<Rightarrow> L \<Rightarrow> L \<Rightarrow> bool" where
  "parallel_l eps l m = (\<bar>cross (d_l l) (d_l m)\<bar> \<le> eps)"

definition intersection_l :: "real \<Rightarrow> L \<Rightarrow> L \<Rightarrow> error + P" where
  "intersection_l eps l m =
     (if parallel_l eps l m then Inl Degenerate_Geometry
      else Inr (add_p (o_l l)
             (scale_p (d_l l)
                (cross (sub_p (o_l m) (o_l l)) (d_l m) / cross (d_l l) (d_l m)))))"

definition spec_geom :: "real \<Rightarrow> geom" where
  "spec_geom eps =
     \<lparr> rot = rotate90, angle = angle_p, dot = dot_p, side = side_l,
       intersection = intersection_l eps, parallel = parallel_l eps \<rparr>"


section \<open>Properties\<close>

subsection \<open>The intersection point\<close>

lemma intersection_on_both_lines:
  assumes "intersection_l eps l m = Inr p" and "0 \<le> eps"
  shows "side_l l p = 0 \<and> side_l m p = 0"
proof -
  from assms have nz: "cross (d_l l) (d_l m) \<noteq> 0"
    and p: "p = add_p (o_l l) (scale_p (d_l l)
              (cross (sub_p (o_l m) (o_l l)) (d_l m) / cross (d_l l) (d_l m)))"
    by (auto simp: intersection_l_def parallel_l_def split: if_splits)
  have 1: "side_l l p = 0"
    by (simp add: p side_l_def cross_def add_p_def sub_p_def scale_p_def)
  have "side_l m p * cross (d_l l) (d_l m) = 0"
    using nz by (simp add: p side_l_def cross_def add_p_def sub_p_def scale_p_def field_simps)
  with nz have "side_l m p = 0" by simp
  with 1 show ?thesis by simp
qed

subsection \<open>The two loops of the sweep\<close>

lemma pop_back_prefix:
  "pop_back G h q = Inr q' \<Longrightarrow>
     \<exists>k\<le>length q. q' = take k q \<and>
       (\<forall>j. k < j \<and> j \<le> length q \<longrightarrow> 2 \<le> j \<and> back_test G h (take j q)) \<and>
       (2 \<le> k \<longrightarrow> \<not> back_test G h q')"
proof (induction G h q rule: pop_back.induct)
  case (1 G h q)
  show ?case
  proof (cases "2 \<le> length q")
    case False
    with "1.prems" have "q' = q" by (simp add: pop_back.simps)
    with False show ?thesis by (intro exI[of _ "length q"]) auto
  next
    case len: True
    show ?thesis
    proof (cases "intersection G (last q) (last (butlast q))")
      case (Inl e)
      with len "1.prems" show ?thesis by (simp add: pop_back.simps)
    next
      case (Inr p)
      show ?thesis
      proof (cases "0 < side G h p")
        case False
        with len Inr "1.prems" have "q' = q" by (simp add: pop_back.simps)
        with False Inr show ?thesis
          by (intro exI[of _ "length q"]) (auto simp: back_test_def)
      next
        case True
        with len Inr "1.prems" have "pop_back G h (butlast q) = Inr q'"
          by (simp add: pop_back.simps)
        from "1.IH"[OF len Inr True this] obtain k where
          k: "k \<le> length (butlast q)" "q' = take k (butlast q)"
            "\<forall>j. k < j \<and> j \<le> length (butlast q) \<longrightarrow>
                 2 \<le> j \<and> back_test G h (take j (butlast q))"
            "2 \<le> k \<longrightarrow> \<not> back_test G h q'"
          by blast
        have tk: "\<And>j. j \<le> length (butlast q) \<Longrightarrow> take j (butlast q) = take j q"
          by (simp add: take_butlast butlast_conv_take)
        have top: "back_test G h (take (length q) q)"
          using Inr True by (simp add: back_test_def)
        have "\<forall>j. k < j \<and> j \<le> length q \<longrightarrow> 2 \<le> j \<and> back_test G h (take j q)"
        proof (intro allI impI)
          fix j assume j: "k < j \<and> j \<le> length q"
          show "2 \<le> j \<and> back_test G h (take j q)"
          proof (cases "j = length q")
            case True with top len show ?thesis by simp
          next
            case False
            with j have "j \<le> length (butlast q)" by auto
            with k(3) j tk show ?thesis by auto
          qed
        qed
        with k tk show ?thesis
          by (intro exI[of _ k]) auto
      qed
    qed
  qed
qed

lemma pop_front_suffix:
  "pop_front G h q = Inr q' \<Longrightarrow>
     \<exists>k\<le>length q. q' = drop k q \<and>
       (\<forall>j. j < k \<longrightarrow> 2 \<le> length q - j \<and> front_test G h (drop j q)) \<and>
       (2 \<le> length q' \<longrightarrow> \<not> front_test G h q')"
proof (induction G h q rule: pop_front.induct)
  case (1 G h q)
  show ?case
  proof (cases "2 \<le> length q")
    case False
    with "1.prems" have "q' = q" by (simp add: pop_front.simps)
    with False show ?thesis by (intro exI[of _ 0]) auto
  next
    case len: True
    show ?thesis
    proof (cases "intersection G (hd q) (hd (tl q))")
      case (Inl e)
      with len "1.prems" show ?thesis by (simp add: pop_front.simps)
    next
      case (Inr p)
      show ?thesis
      proof (cases "0 < side G h p")
        case False
        with len Inr "1.prems" have "q' = q" by (simp add: pop_front.simps)
        with False Inr show ?thesis
          by (intro exI[of _ 0]) (auto simp: front_test_def)
      next
        case True
        with len Inr "1.prems" have "pop_front G h (tl q) = Inr q'"
          by (simp add: pop_front.simps)
        from "1.IH"[OF len Inr True this] obtain k where
          k: "k \<le> length (tl q)" "q' = drop k (tl q)"
            "\<forall>j. j < k \<longrightarrow> 2 \<le> length (tl q) - j \<and> front_test G h (drop j (tl q))"
            "2 \<le> length q' \<longrightarrow> \<not> front_test G h q'"
          by blast
        have dk: "\<And>j. drop j (tl q) = drop (Suc j) q"
          by (simp add: drop_Suc)
        have top: "front_test G h (drop 0 q)"
          using Inr True by (simp add: front_test_def)
        have "\<forall>j. j < Suc k \<longrightarrow> 2 \<le> length q - j \<and> front_test G h (drop j q)"
        proof (intro allI impI)
          fix j assume j: "j < Suc k"
          show "2 \<le> length q - j \<and> front_test G h (drop j q)"
          proof (cases j)
            case 0 with top len show ?thesis by simp
          next
            case (Suc i)
            with j have "i < k" by simp
            with k(3) have "2 \<le> length (tl q) - i \<and> front_test G h (drop i (tl q))"
              by blast
            with Suc dk show ?thesis by auto
          qed
        qed
        moreover have "Suc k \<le> length q" using k(1) len by auto
        ultimately show ?thesis using k dk
          by (intro exI[of _ "Suc k"]) auto
      qed
    qed
  qed
qed

lemmas geom_simps = spec_geom_def side_l_def parallel_l_def intersection_l_def cross_def
  dot_p_def sub_p_def add_p_def scale_p_def rotate90_def angle_p_def INF_c_def

lemmas loop_simps = pop_back.simps pop_front.simps trim_back.simps trim_front.simps

text \<open>
  Claim C2, as amended. The loop of source line 50 removes elements from the back of the
  deque exactly while the deque has at least two elements and the side value that the
  incoming halfplane gives to the intersection point of the last two elements is greater
  than zero: the deque it leaves is a prefix \<open>take k q\<close>, the test held at every longer
  prefix, and it fails at the prefix left when that still has two elements. The loop of
  source line 54 does the same from the front with the first two elements. The comparison
  is the strict comparison with zero; there is no tolerance in it.
\<close>

theorem sweep_pops_while_side_positive:
  "(pop_back G h q = Inr q1 \<longrightarrow>
      (\<exists>k\<le>length q. q1 = take k q \<and>
         (\<forall>j. k < j \<and> j \<le> length q \<longrightarrow> 2 \<le> j \<and> back_test G h (take j q)) \<and>
         (2 \<le> k \<longrightarrow> \<not> back_test G h q1))) \<and>
   (pop_front G h q = Inr q2 \<longrightarrow>
      (\<exists>k\<le>length q. q2 = drop k q \<and>
         (\<forall>j. j < k \<longrightarrow> 2 \<le> length q - j \<and> front_test G h (drop j q)) \<and>
         (2 \<le> length q2 \<longrightarrow> \<not> front_test G h q2)))"
  using pop_back_prefix [of G h q q1] pop_front_suffix [of G h q q2] by blast

theorem sweep_pops_while_side_positive_witness:
  "pop_back (spec_geom 0) (L (P 0 (- 1)) (P 1 0)) [L (P 0 0) (P 1 0), L (P 0 0) (P 0 1)]
     = Inr [L (P 0 0) (P 1 0)] \<and>
   pop_front (spec_geom 0) (L (P 0 (- 1)) (P 1 0)) [L (P 0 0) (P 1 0), L (P 0 0) (P 0 1)]
     = Inr [L (P 0 0) (P 0 1)] \<and>
   (\<exists>k\<le>length [L (P 0 0) (P 1 0), L (P 0 0) (P 0 1)].
      [L (P 0 0) (P 1 0)] = take k [L (P 0 0) (P 1 0), L (P 0 0) (P 0 1)] \<and>
      (\<forall>j. k < j \<and> j \<le> length [L (P 0 0) (P 1 0), L (P 0 0) (P 0 1)] \<longrightarrow> 2 \<le> j \<and>
         back_test (spec_geom 0) (L (P 0 (- 1)) (P 1 0))
           (take j [L (P 0 0) (P 1 0), L (P 0 0) (P 0 1)])) \<and>
      (2 \<le> k \<longrightarrow> \<not> back_test (spec_geom 0) (L (P 0 (- 1)) (P 1 0)) [L (P 0 0) (P 1 0)])) \<and>
   (\<exists>k\<le>length [L (P 0 0) (P 1 0), L (P 0 0) (P 0 1)].
      [L (P 0 0) (P 0 1)] = drop k [L (P 0 0) (P 1 0), L (P 0 0) (P 0 1)] \<and>
      (\<forall>j. j < k \<longrightarrow> 2 \<le> length [L (P 0 0) (P 1 0), L (P 0 0) (P 0 1)] - j \<and>
         front_test (spec_geom 0) (L (P 0 (- 1)) (P 1 0))
           (drop j [L (P 0 0) (P 1 0), L (P 0 0) (P 0 1)])) \<and>
      (2 \<le> length [L (P 0 0) (P 0 1)] \<longrightarrow>
         \<not> front_test (spec_geom 0) (L (P 0 (- 1)) (P 1 0)) [L (P 0 0) (P 0 1)]))"
proof -
  let ?G = "spec_geom 0" and ?h = "L (P 0 (- 1)) (P 1 0)"
  let ?q = "[L (P 0 0) (P 1 0), L (P 0 0) (P 0 1)]"
  have b: "pop_back ?G ?h ?q = Inr [L (P 0 0) (P 1 0)]"
    by (simp add: geom_simps loop_simps)
  have f: "pop_front ?G ?h ?q = Inr [L (P 0 0) (P 0 1)]"
    by (simp add: geom_simps loop_simps)
  note t = sweep_pops_while_side_positive
    [of ?G ?h ?q "[L (P 0 0) (P 1 0)]" "[L (P 0 0) (P 0 1)]"]
  show ?thesis
    using b f mp [OF conjunct1 [OF t] b] mp [OF conjunct2 [OF t] f]
    by (intro conjI)
qed

text \<open>
  Claim C2 as stated fails. With \<open>side\<close> the cross product of the specification and the
  tolerance \<open>1e-9\<close>: the deque holds the x-axis and the y-axis, which meet in \<open>(0, 0)\<close>.
  For the incoming halfplane \<open>y \<ge> 1\<close> that point is outside (side value \<open>-1\<close>), and
  nothing is popped; for the incoming halfplane \<open>y \<ge> -1\<close> it is strictly inside
  (side value \<open>1\<close>), and the back element is popped.
\<close>

theorem sweep_pop_outside_counterexample:
  "intersection (spec_geom (1 / 10 ^ 9)) (L (P 0 0) (P 0 1)) (L (P 0 0) (P 1 0)) = Inr (P 0 0) \<and>
   side (spec_geom (1 / 10 ^ 9)) (L (P 0 1) (P 1 0)) (P 0 0) < - (1 / 10 ^ 9) \<and>
   pop_back (spec_geom (1 / 10 ^ 9)) (L (P 0 1) (P 1 0)) [L (P 0 0) (P 1 0), L (P 0 0) (P 0 1)]
     = Inr [L (P 0 0) (P 1 0), L (P 0 0) (P 0 1)] \<and>
   1 / 10 ^ 9 < side (spec_geom (1 / 10 ^ 9)) (L (P 0 (- 1)) (P 1 0)) (P 0 0) \<and>
   pop_back (spec_geom (1 / 10 ^ 9)) (L (P 0 (- 1)) (P 1 0)) [L (P 0 0) (P 1 0), L (P 0 0) (P 0 1)]
     = Inr [L (P 0 0) (P 1 0)]"
  by (simp add: geom_simps loop_simps)

subsection \<open>The parallel case\<close>



subsection \<open>Termination\<close>

lemma pop_back_length: "pop_back G h q = Inr q' \<Longrightarrow> length q' \<le> length q"
  using pop_back_prefix [of G h q q'] by auto

lemma pop_front_length: "pop_front G h q = Inr q' \<Longrightarrow> length q' \<le> length q"
  using pop_front_suffix [of G h q q'] by auto

lemma parallel_case_length:
  "parallel_case G h q = Next_Round q' \<Longrightarrow> length q' \<le> Suc (length q)"
  by (auto simp: parallel_case_def split: if_splits)

lemma sweep_round_length:
  assumes "sweep_round G h q = Inr (Next_Round q')"
  shows "length q' \<le> Suc (length q)"
proof -
  from assms obtain q1 q2 where
    "pop_back G h q = Inr q1" "pop_front G h q1 = Inr q2" "parallel_case G h q2 = Next_Round q'"
    by (auto simp: sweep_round_def split: sum.splits)
  with pop_back_length pop_front_length parallel_case_length show ?thesis
    by (meson le_trans Suc_le_mono)
qed

lemma sweep_length:
  "sweep G hs q = Inr (Next_Round q') \<Longrightarrow> length q' \<le> length q + length hs"
proof (induction hs arbitrary: q)
  case Nil
  then show ?case by simp
next
  case (Cons h hs)
  from Cons.prems obtain q1 where
    r: "sweep_round G h q = Inr (Next_Round q1)" and s: "sweep G hs q1 = Inr (Next_Round q')"
    by (auto split: sum.splits round.splits)
  from Cons.IH [OF s] sweep_round_length [OF r] show ?case by simp
qed

lemma add_bounding_eq:
  "bb < length hp \<Longrightarrow>
     add_bounding G k bb (hp, H) =
       (hp[bb := (rotate_line G ^^ k) (hp ! bb)], H @ replicate k bb)"
proof (induction k arbitrary: hp H)
  case 0
  then show ?case by simp
next
  case (Suc k)
  then show ?case
    by (simp add: funpow_swap1 replicate_app_Cons_same)
qed

lemma augment_eq:
  "augment G hp H =
     (hp @ [(rotate_line G ^^ 4) (L (P (- INF_c) (- INF_c)) (P INF_c 0))],
      sort_key (\<lambda>a. angle G (d_l ((hp @ [(rotate_line G ^^ 4)
                   (L (P (- INF_c) (- INF_c)) (P INF_c 0))]) ! a)))
        (H @ replicate 4 (length hp)))"
  by (simp add: augment_def new_bb_def add_bounding_eq)

lemma augment_length: "length (snd (augment G hp H)) = length H + 4"
  by (simp add: augment_eq)

text \<open>
  Claim C10. Every recursive function of the model is defined with a termination proof
  whose measure is the length of the deque (the four while loops) or is structurally
  recursive on the list it walks (the for loops), so the whole computation is a total
  function. The theorem states the quantities of the claim: an iteration of each of the
  four while loops continues with a strictly shorter deque; one round of the outer loop
  lengthens the deque by at most one element; the deque after the outer loop is at most as
  long as the list it processed; and that list has the length of the input plus four.
\<close>

theorem halfplane_intersect_terminates:
  "(2 \<le> length q \<and> back_test G h q \<longrightarrow>
      pop_back G h q = pop_back G h (butlast q) \<and> length (butlast q) < length q) \<and>
   (2 \<le> length q \<and> front_test G h q \<longrightarrow>
      pop_front G h q = pop_front G h (tl q) \<and> length (tl q) < length q) \<and>
   (3 \<le> length q \<and> back_test G (hd q) q \<longrightarrow>
      trim_back G q = trim_back G (butlast q) \<and> length (butlast q) < length q) \<and>
   (3 \<le> length q \<and> front_test G (last q) q \<longrightarrow>
      trim_front G q = trim_front G (tl q) \<and> length (tl q) < length q) \<and>
   (sweep_round G h q = Inr (Next_Round q1) \<longrightarrow> length q1 \<le> length q + 1) \<and>
   (sweep G hs [] = Inr (Next_Round q2) \<longrightarrow> length q2 \<le> length hs) \<and>
   length (fst (snd (halfplane_intersect G hp H))) = length H + 4"
proof (intro conjI impI)
  assume "2 \<le> length q \<and> back_test G h q"
  then show "pop_back G h q = pop_back G h (butlast q)"
    by (subst pop_back.simps) (auto simp: back_test_def split: sum.splits)
next
  assume "2 \<le> length q \<and> front_test G h q"
  then show "pop_front G h q = pop_front G h (tl q)"
    by (subst pop_front.simps) (auto simp: front_test_def split: sum.splits)
next
  assume "3 \<le> length q \<and> back_test G (hd q) q"
  then show "trim_back G q = trim_back G (butlast q)"
    by (subst trim_back.simps) (auto simp: back_test_def split: sum.splits)
next
  assume "3 \<le> length q \<and> front_test G (last q) q"
  then show "trim_front G q = trim_front G (tl q)"
    by (subst trim_front.simps) (auto simp: front_test_def split: sum.splits)
next
  assume "sweep_round G h q = Inr (Next_Round q1)"
  from sweep_round_length [OF this] show "length q1 \<le> length q + 1" by simp
next
  assume "sweep G hs [] = Inr (Next_Round q2)"
  from sweep_length [OF this] show "length q2 \<le> length hs" by simp
next
  show "length (fst (snd (halfplane_intersect G hp H))) = length H + 4"
    using augment_length [of G hp H]
    by (simp add: halfplane_intersect_def split_beta Let_def)
qed auto

theorem halfplane_intersect_terminates_witness:
  "back_test (spec_geom 0) (L (P 0 (- 1)) (P 1 0)) [L (P 0 0) (P 1 0), L (P 0 0) (P 0 1)] \<and>
   front_test (spec_geom 0) (L (P 0 (- 1)) (P 1 0)) [L (P 0 0) (P 1 0), L (P 0 0) (P 0 1)] \<and>
   pop_back (spec_geom 0) (L (P 0 (- 1)) (P 1 0)) [L (P 0 0) (P 1 0), L (P 0 0) (P 0 1)]
     = pop_back (spec_geom 0) (L (P 0 (- 1)) (P 1 0))
         (butlast [L (P 0 0) (P 1 0), L (P 0 0) (P 0 1)]) \<and>
   pop_front (spec_geom 0) (L (P 0 (- 1)) (P 1 0)) [L (P 0 0) (P 1 0), L (P 0 0) (P 0 1)]
     = pop_front (spec_geom 0) (L (P 0 (- 1)) (P 1 0))
         (tl [L (P 0 0) (P 1 0), L (P 0 0) (P 0 1)]) \<and>
   back_test (spec_geom 0) (hd [L (P 0 (- 1)) (P 1 0), L (P 0 0) (P 1 0), L (P 0 0) (P 0 1)])
     [L (P 0 (- 1)) (P 1 0), L (P 0 0) (P 1 0), L (P 0 0) (P 0 1)] \<and>
   trim_back (spec_geom 0) [L (P 0 (- 1)) (P 1 0), L (P 0 0) (P 1 0), L (P 0 0) (P 0 1)]
     = trim_back (spec_geom 0)
         (butlast [L (P 0 (- 1)) (P 1 0), L (P 0 0) (P 1 0), L (P 0 0) (P 0 1)]) \<and>
   front_test (spec_geom 0) (last [L (P 0 0) (P 1 0), L (P 0 0) (P 0 1), L (P 0 (- 1)) (P 1 0)])
     [L (P 0 0) (P 1 0), L (P 0 0) (P 0 1), L (P 0 (- 1)) (P 1 0)] \<and>
   trim_front (spec_geom 0) [L (P 0 0) (P 1 0), L (P 0 0) (P 0 1), L (P 0 (- 1)) (P 1 0)]
     = trim_front (spec_geom 0)
         (tl [L (P 0 0) (P 1 0), L (P 0 0) (P 0 1), L (P 0 (- 1)) (P 1 0)]) \<and>
   sweep_round (spec_geom 0) (L (P 0 (- 1)) (P 1 0)) [L (P 0 0) (P 1 0), L (P 0 0) (P 0 1)]
     = Inr (Next_Round [L (P 0 (- 1)) (P 1 0)]) \<and>
   length [L (P 0 (- 1)) (P 1 0)] \<le> length [L (P 0 0) (P 1 0), L (P 0 0) (P 0 1)] + 1 \<and>
   sweep (spec_geom 0) [L (P 0 0) (P 1 0), L (P 0 0) (P 0 1)] []
     = Inr (Next_Round [L (P 0 0) (P 1 0), L (P 0 0) (P 0 1)]) \<and>
   length [L (P 0 0) (P 1 0), L (P 0 0) (P 0 1)]
     \<le> length [L (P 0 0) (P 1 0), L (P 0 0) (P 0 1)] \<and>
   length (fst (snd (halfplane_intersect (spec_geom 0) [] []))) = length ([] :: addr list) + 4"
proof -
  let ?G = "spec_geom 0" and ?h = "L (P 0 (- 1)) (P 1 0)"
  let ?x = "L (P 0 0) (P 1 0)" and ?y = "L (P 0 0) (P 0 1)"
  have l2: "2 \<le> length [?x, ?y]" by simp
  have l3: "3 \<le> length [?h, ?x, ?y]" "3 \<le> length [?x, ?y, ?h]" by simp_all
  have b2: "back_test ?G ?h [?x, ?y]" by (simp add: back_test_def geom_simps)
  have f2: "front_test ?G ?h [?x, ?y]" by (simp add: front_test_def geom_simps)
  have b3: "back_test ?G (hd [?h, ?x, ?y]) [?h, ?x, ?y]"
    by (simp add: back_test_def geom_simps)
  have f3: "front_test ?G (last [?x, ?y, ?h]) [?x, ?y, ?h]"
    by (simp add: front_test_def geom_simps)
  have r: "sweep_round ?G ?h [?x, ?y] = Inr (Next_Round [?h])"
    by (simp add: sweep_round_def parallel_case_def geom_simps loop_simps)
  have s: "sweep ?G [?x, ?y] [] = Inr (Next_Round [?x, ?y])"
    by (simp add: sweep_round_def parallel_case_def geom_simps loop_simps)
  note a = halfplane_intersect_terminates
    [where G = ?G and h = ?h and q = "[?x, ?y]" and ?q1.0 = "[?h]" and hs = "[?x, ?y]"
       and ?q2.0 = "[?x, ?y]" and hp = "[]" and H = "[]"]
  note b = halfplane_intersect_terminates
    [where G = ?G and h = ?h and q = "[?h, ?x, ?y]" and ?q1.0 = "[]" and hs = "[]"
       and ?q2.0 = "[]" and hp = "[]" and H = "[]"]
  note c = halfplane_intersect_terminates
    [where G = ?G and h = ?h and q = "[?x, ?y, ?h]" and ?q1.0 = "[]" and hs = "[]"
       and ?q2.0 = "[]" and hp = "[]" and H = "[]"]
  show ?thesis
    using a b c l2 l3 b2 f2 b3 f3 r s by blast
qed

subsection \<open>Errors\<close>

lemma pop_back_error:
  "pop_back G h q = Inl e \<Longrightarrow> \<exists>a b. intersection G a b = Inl e"
proof (induction G h q rule: pop_back.induct)
  case (1 G h q)
  from "1.prems" show ?case
    by (subst (asm) pop_back.simps) (auto split: if_splits sum.splits dest: "1.IH")
qed

lemma pop_front_error:
  "pop_front G h q = Inl e \<Longrightarrow> \<exists>a b. intersection G a b = Inl e"
proof (induction G h q rule: pop_front.induct)
  case (1 G h q)
  from "1.prems" show ?case
    by (subst (asm) pop_front.simps) (auto split: if_splits sum.splits dest: "1.IH")
qed

lemma trim_back_error:
  "trim_back G q = Inl e \<Longrightarrow> \<exists>a b. intersection G a b = Inl e"
proof (induction G q rule: trim_back.induct)
  case (1 G q)
  from "1.prems" show ?case
    by (subst (asm) trim_back.simps) (auto split: if_splits sum.splits dest: "1.IH")
qed

lemma trim_front_error:
  "trim_front G q = Inl e \<Longrightarrow> \<exists>a b. intersection G a b = Inl e"
proof (induction G q rule: trim_front.induct)
  case (1 G q)
  from "1.prems" show ?case
    by (subst (asm) trim_front.simps) (auto split: if_splits sum.splits dest: "1.IH")
qed

lemma vertices_error:
  "vertices G q is = Inl e \<Longrightarrow> \<exists>a b. intersection G a b = Inl e"
  by (induction "is") (auto split: sum.splits)

lemma finish_error:
  "finish G q = Inl e \<Longrightarrow> \<exists>a b. intersection G a b = Inl e"
  by (auto simp: finish_def split: sum.splits if_splits
      dest: trim_back_error trim_front_error vertices_error)

lemma sweep_round_error:
  "sweep_round G h q = Inl e \<Longrightarrow> \<exists>a b. intersection G a b = Inl e"
  by (auto simp: sweep_round_def split: sum.splits dest: pop_back_error pop_front_error)

lemma sweep_error:
  "sweep G hs q = Inl e \<Longrightarrow> \<exists>a b. intersection G a b = Inl e"
  by (induction hs arbitrary: q)
     (auto split: sum.splits round.splits dest: sweep_round_error)

lemma run_sweep_error:
  "run_sweep G ls = Inl e \<Longrightarrow> \<exists>a b. intersection G a b = Inl e"
  by (auto simp: run_sweep_def split: sum.splits round.splits
      dest: sweep_error finish_error)

lemma halfplane_intersect_error:
  "snd (snd (halfplane_intersect G hp H)) = Inl e \<Longrightarrow> \<exists>a b. intersection G a b = Inl e"
  by (auto simp: halfplane_intersect_def Let_def split_beta dest: run_sweep_error)

lemma intersection_l_error: "intersection_l eps a b = Inl e \<Longrightarrow> e = Degenerate_Geometry"
  by (auto simp: intersection_l_def split: if_splits)

text \<open>
  Claim C8, as amended. The call does not examine the direction vectors of its input: no
  call reports an Invalid-Input error, whatever the halfplanes are. The only error a call
  can end with is the one \<open>intersection\<close> raises.
\<close>

theorem no_invalid_input_error:
  "snd (snd (halfplane_intersect (spec_geom eps) hp H)) \<noteq> Inl Invalid_Input"
proof
  assume "snd (snd (halfplane_intersect (spec_geom eps) hp H)) = Inl Invalid_Input"
  from halfplane_intersect_error [OF this]
  obtain a b where "intersection (spec_geom eps) a b = Inl Invalid_Input" by blast
  then have "intersection_l eps a b = Inl Invalid_Input" by (simp add: spec_geom_def)
  from intersection_l_error [OF this] show False by simp
qed

subsection \<open>Runs on concrete inputs\<close>

lemma rotate_line_4: "(rotate_line (spec_geom eps) ^^ 4) l = l"
  by (cases l) (simp add: eval_nat_numeral rotate_line_def rotate90_def spec_geom_def)

lemma augment_spec:
  "augment (spec_geom eps) hp H =
     (hp @ [L (P (- INF_c) (- INF_c)) (P INF_c 0)],
      sort_key (\<lambda>a. angle_p (d_l ((hp @ [L (P (- INF_c) (- INF_c)) (P INF_c 0)]) ! a)))
        (H @ [length hp, length hp, length hp, length hp]))"
proof -
  have "replicate 4 (length hp) = [length hp, length hp, length hp, length hp]"
    by (simp add: eval_nat_numeral)
  then show ?thesis
    by (simp add: augment_eq rotate_line_4) (simp add: spec_geom_def)
qed

lemma atan2_values:
  "0 < x \<Longrightarrow> atan2 0 x = 0"
  "0 < y \<Longrightarrow> atan2 y 0 = pi / 2"
  "y < 0 \<Longrightarrow> atan2 y 0 = - (pi / 2)"
  "atan2 0 0 = 0"
  "atan2 1 1 = pi / 4"
  by (simp_all add: atan2_def arctan_one)

lemma pi_order:
  "\<not> pi \<le> 0" "\<not> pi / 2 \<le> 0" "\<not> pi / 4 \<le> 0" "\<not> 0 \<le> - (pi / 2)"
  "- (pi / 2) \<le> 0" "- (pi / 2) \<le> pi / 4" "\<not> pi / 4 \<le> - (pi / 2)" "0 \<le> pi / 4"
  "0 \<le> pi / 2" "\<not> pi / 2 \<le> - (pi / 2)" "- (pi / 2) \<le> pi / 2"
  by (use pi_gt_zero in linarith)+

lemmas augment_simps = halfplane_intersect_def augment_spec angle_p_def atan2_values pi_order
  INF_c_def

lemmas run_simps = run_sweep_def sweep_round_def parallel_case_def finish_def upt_rec
  geom_simps loop_simps

lemma augment_side_update:
  "augment (G\<lparr>side := s\<rparr>) hp H = augment G hp H"
proof -
  have "rotate_line (G\<lparr>side := s\<rparr>) = rotate_line G"
    by (simp add: fun_eq_iff rotate_line_def)
  then show ?thesis by (simp add: augment_eq)
qed

text \<open>
  Claim C8 as stated fails: for the input that consists of one halfplane with the zero
  vector as its direction, the call reports no error. It returns the empty polygon, and
  the caller's list comes back in the order halfplane, bounding halfplane (four times).
\<close>

theorem zero_direction_counterexample:
  "halfplane_intersect (spec_geom (1 / 10 ^ 9)) [L (P 0 0) (P 0 0)] [0] =
     ([L (P 0 0) (P 0 0), L (P (- INF_c) (- INF_c)) (P INF_c 0)], [0, 1, 1, 1, 1], Inr [])"
  by (simp add: augment_simps) (simp add: run_simps)

subsection \<open>The caller's list\<close>

lemma insort_key_agree:
  "f x = g x \<Longrightarrow> \<forall>y\<in>set ys. f y = g y \<Longrightarrow> insort_key f x ys = insort_key g x ys"
  by (induction ys) auto

lemma sort_key_agree:
  "\<forall>x\<in>set xs. f x = g x \<Longrightarrow> sort_key f xs = sort_key g xs"
  by (induction xs) (auto intro: insort_key_agree)

text \<open>
  Claim C9, as amended. A call changes the caller's list in place: it appends four
  entries for the bounding frame and sorts the list by direction angle. Afterwards the
  list has four more elements and is sorted by direction angle; the elements it had
  before are all still in it, in the order of the stable sort by their direction angles;
  the four others refer to line objects that did not exist before the call. The line
  objects that existed before the call are not modified.
\<close>

theorem caller_list_changed_in_place:
  assumes "halfplane_intersect G hp H = (hp', H', r)"
    and "\<forall>a\<in>set H. a < length hp"
  shows "length H' = length H + 4 \<and>
         sorted (map (\<lambda>a. angle G (d_l (hp' ! a))) H') \<and>
         filter (\<lambda>a. a < length hp) H' = sort_key (\<lambda>a. angle G (d_l (hp ! a))) H \<and>
         length (filter (\<lambda>a. length hp \<le> a) H') = 4 \<and>
         take (length hp) hp' = hp"
proof -
  let ?b = "(rotate_line G ^^ 4) (L (P (- INF_c) (- INF_c)) (P INF_c 0))"
  let ?k = "\<lambda>a. angle G (d_l ((hp @ [?b]) ! a))"
  from assms(1) have "hp' = hp @ [?b] \<and> H' = sort_key ?k (H @ replicate 4 (length hp))"
    by (auto simp: halfplane_intersect_def augment_eq Let_def)
  then have hp': "hp' = hp @ [?b]"
    and H': "H' = sort_key ?k (H @ replicate 4 (length hp))"
    by blast+
  have old: "filter (\<lambda>a. a < length hp) H = H"
    using assms(2) by (simp add: filter_id_conv)
  have new: "filter (\<lambda>a. length hp \<le> a) H = []"
    using assms(2) by (auto simp: filter_empty_conv)
  have agree: "\<forall>a\<in>set H. ?k a = angle G (d_l (hp ! a))"
    using assms(2) by (simp add: nth_append)
  have 1: "length H' = length H + 4" by (simp add: H')
  have 2: "sorted (map (\<lambda>a. angle G (d_l (hp' ! a))) H')"
    unfolding hp' H' by (rule sorted_sort_key)
  have "filter (\<lambda>a. a < length hp) H' = sort_key ?k H"
    by (simp add: H' filter_sort old)
  also have "\<dots> = sort_key (\<lambda>a. angle G (d_l (hp ! a))) H"
    by (rule sort_key_agree) (rule agree)
  finally have 3: "filter (\<lambda>a. a < length hp) H' = sort_key (\<lambda>a. angle G (d_l (hp ! a))) H" .
  have 4: "length (filter (\<lambda>a. length hp \<le> a) H') = 4"
    by (simp add: H' filter_sort new)
  have 5: "take (length hp) hp' = hp" by (simp add: hp')
  from 1 2 3 4 5 show ?thesis by (intro conjI)
qed

theorem caller_list_changed_in_place_witness:
  "halfplane_intersect (spec_geom 0) [L (P 0 0) (P 1 0)] [0] =
     ([L (P 0 0) (P 1 0), L (P (- INF_c) (- INF_c)) (P INF_c 0)], [0, 1, 1, 1, 1], Inr []) \<and>
   length [0, 1, 1, 1, 1 :: addr] = length [0 :: addr] + 4 \<and>
   sorted (map (\<lambda>a. angle (spec_geom 0)
       (d_l ([L (P 0 0) (P 1 0), L (P (- INF_c) (- INF_c)) (P INF_c 0)] ! a))) [0, 1, 1, 1, 1]) \<and>
   filter (\<lambda>a. a < length [L (P 0 0) (P 1 0)]) [0, 1, 1, 1, 1]
     = sort_key (\<lambda>a. angle (spec_geom 0) (d_l ([L (P 0 0) (P 1 0)] ! a))) [0] \<and>
   length (filter (\<lambda>a. length [L (P 0 0) (P 1 0)] \<le> a) [0, 1, 1, 1, 1]) = 4 \<and>
   take (length [L (P 0 0) (P 1 0)]) [L (P 0 0) (P 1 0), L (P (- INF_c) (- INF_c)) (P INF_c 0)]
     = [L (P 0 0) (P 1 0)]"
proof -
  have e: "halfplane_intersect (spec_geom 0) [L (P 0 0) (P 1 0)] [0] =
     ([L (P 0 0) (P 1 0), L (P (- INF_c) (- INF_c)) (P INF_c 0)], [0, 1, 1, 1, 1], Inr [])"
    by (simp add: augment_simps) (simp add: run_simps)
  have v: "\<forall>a\<in>set [0 :: addr]. a < length [L (P 0 0) (P 1 0)]" by simp
  note t = caller_list_changed_in_place [OF e v]
  show ?thesis
    using e conjunct1 [OF t]
      t [THEN conjunct2, THEN conjunct1]
      t [THEN conjunct2, THEN conjunct2, THEN conjunct1]
      t [THEN conjunct2, THEN conjunct2, THEN conjunct2, THEN conjunct1]
      t [THEN conjunct2, THEN conjunct2, THEN conjunct2, THEN conjunct2]
    by (intro conjI)
qed

text \<open>
  Claim C9 as stated fails: a caller's list that holds one halfplane (direction \<open>(0, 1)\<close>)
  holds five elements after the call, four of them the bounding halfplane object created
  by the call, and the caller's element has moved from the first place to the last.
\<close>

theorem caller_list_changed_counterexample:
  "fst (snd (halfplane_intersect (spec_geom (1 / 10 ^ 9)) [L (P 0 0) (P 0 1)] [0]))
     = [1, 1, 1, 1, 0] \<and>
   fst (halfplane_intersect (spec_geom (1 / 10 ^ 9)) [L (P 0 0) (P 0 1)] [0]) ! 1
     = L (P (- INF_c) (- INF_c)) (P INF_c 0)"
  by (simp add: augment_simps)

subsection \<open>The bounding halfplanes\<close>

text \<open>
  Claim C3 fails on the code. The four elements appended to the list are four references
  to one object; each round of the loop rotates that object, so that after the fourth
  round it is back at origin \<open>(-INF, -INF)\<close> and direction \<open>(INF, 0)\<close>. The list gains one
  bounding halfplane four times over, with one direction, not four halfplanes with four
  directions.
\<close>

theorem bounding_halfplanes_are_one_object:
  "add_bounding (spec_geom eps) 4 (fst (new_bb hp)) (snd (new_bb hp), H) =
     (hp @ [L (P (- INF_c) (- INF_c)) (P INF_c 0)],
      H @ [length hp, length hp, length hp, length hp]) \<and>
   map (\<lambda>a. d_l ((hp @ [L (P (- INF_c) (- INF_c)) (P INF_c 0)]) ! a))
     [length hp, length hp, length hp, length hp]
     = [P INF_c 0, P INF_c 0, P INF_c 0, P INF_c 0]"
proof -
  have "replicate 4 (length hp) = [length hp, length hp, length hp, length hp]"
    by (simp add: eval_nat_numeral)
  then show ?thesis
    by (simp add: new_bb_def add_bounding_eq rotate_line_4)
qed

text \<open>
  Claim C4 fails on the code. For the empty input the list that is swept holds the one
  bounding halfplane four times; the first is appended to the deque, the other three are
  skipped as parallel and not more restrictive, and a deque of one element gives the
  empty polygon. The same happens when \<open>side\<close> has the opposite sign.
\<close>

theorem empty_input_gives_empty_polygon:
  "halfplane_intersect (spec_geom (1 / 10 ^ 9)) [] [] =
     ([L (P (- INF_c) (- INF_c)) (P INF_c 0)], [0, 0, 0, 0], Inr []) \<and>
   snd (snd (halfplane_intersect
     ((spec_geom (1 / 10 ^ 9))\<lparr>side := \<lambda>l p. - side_l l p\<rparr>) [] [])) = Inr []"
  by (simp add: augment_simps augment_side_update)
     (simp add: run_simps atan2_values pi_order)

subsection \<open>Calls of \<open>intersection\<close> on parallel lines\<close>

text \<open>
  Claim C6 fails on the code. The input is the two halfplanes \<open>x \<le> 2\<close> and \<open>x \<ge> 2\<close>,
  both with non-zero directions. After the sweep the deque holds \<open>x \<ge> 2\<close>, the bounding
  halfplane and \<open>x \<le> 2\<close>; the final cleanup removes nothing, and the vertex loop calls
  \<open>intersection\<close> on the last and the first element, which are parallel. The same happens
  when \<open>side\<close> has the opposite sign.
\<close>

theorem intersection_called_on_parallel_pair:
  "snd (snd (halfplane_intersect (spec_geom (1 / 10 ^ 9))
      [L (P 2 (- 2)) (P 0 1), L (P 2 0) (P 0 (- 1))] [0, 1])) = Inl Degenerate_Geometry \<and>
   parallel (spec_geom (1 / 10 ^ 9)) (L (P 2 (- 2)) (P 0 1)) (L (P 2 0) (P 0 (- 1))) \<and>
   snd (snd (halfplane_intersect ((spec_geom (1 / 10 ^ 9))\<lparr>side := \<lambda>l p. - side_l l p\<rparr>)
      [L (P 2 (- 2)) (P 0 1), L (P 2 0) (P 0 (- 1))] [0, 1])) = Inl Degenerate_Geometry"
  by (simp add: augment_simps augment_side_update)
     (simp add: run_simps atan2_values pi_order)

subsection \<open>Containment\<close>

text \<open>
  Claim C1 fails on the code. The input is \<open>x \<ge> 0\<close>, \<open>y \<ge> 0\<close> and \<open>y \<ge> x - 1\<close>. The call
  returns a polygon of three vertices, among them \<open>(0, -1)\<close>, which violates the input
  halfplane \<open>y \<ge> 0\<close> (side value \<open>-1\<close>). When \<open>side\<close> has the opposite sign the call
  returns \<open>(0, 0)\<close>, \<open>(1, 0)\<close>, \<open>(0, -1)\<close>, with the same violating vertex.
\<close>

theorem returned_vertex_outside_input_halfplane:
  "snd (snd (halfplane_intersect (spec_geom (1 / 10 ^ 9))
      [L (P 0 0) (P 0 (- 1)), L (P 0 0) (P 1 0), L (P 1 0) (P 1 1)] [0, 1, 2]))
     = Inr [P 0 (- INF_c), P (1 - INF_c) (- INF_c), P 0 (- 1)] \<and>
   side (spec_geom (1 / 10 ^ 9)) (L (P 0 0) (P 1 0)) (P 0 (- 1)) < - (1 / 10 ^ 9) \<and>
   snd (snd (halfplane_intersect ((spec_geom (1 / 10 ^ 9))\<lparr>side := \<lambda>l p. - side_l l p\<rparr>)
      [L (P 0 0) (P 0 (- 1)), L (P 0 0) (P 1 0), L (P 1 0) (P 1 1)] [0, 1, 2]))
     = Inr [P 0 0, P 1 0, P 0 (- 1)]"
  by (simp add: augment_simps augment_side_update)
     (simp add: run_simps atan2_values pi_order)

subsection \<open>Tolerance\<close>

lemma trim_back_length: "trim_back G q = Inr q' \<Longrightarrow> length q' \<le> length q"
proof (induction G q rule: trim_back.induct)
  case (1 G q)
  from "1.prems" show ?case
    by (subst (asm) trim_back.simps)
       (auto split: if_splits sum.splits dest!: "1.IH" intro: le_trans)
qed

lemma trim_front_length: "trim_front G q = Inr q' \<Longrightarrow> length q' \<le> length q"
proof (induction G q rule: trim_front.induct)
  case (1 G q)
  from "1.prems" show ?case
    by (subst (asm) trim_front.simps)
       (auto split: if_splits sum.splits dest!: "1.IH" intro: le_trans)
qed

lemma pop_back_step:
  assumes "2 \<le> length q" and "intersection G (last q) (last (butlast q)) = Inr p"
  shows "pop_back G h q = (if 0 < side G h p then pop_back G h (butlast q) else Inr q)"
    and "(pop_back G h q = Inr q) = (\<not> 0 < side G h p)"
proof -
  show 1: "pop_back G h q = (if 0 < side G h p then pop_back G h (butlast q) else Inr q)"
    using assms by (subst pop_back.simps) simp
  have "pop_back G h (butlast q) \<noteq> Inr q"
    using pop_back_length [of G h "butlast q" q] assms(1) by auto
  with 1 show "(pop_back G h q = Inr q) = (\<not> 0 < side G h p)" by auto
qed

lemma pop_front_step:
  assumes "2 \<le> length q" and "intersection G (hd q) (hd (tl q)) = Inr p"
  shows "pop_front G h q = (if 0 < side G h p then pop_front G h (tl q) else Inr q)"
    and "(pop_front G h q = Inr q) = (\<not> 0 < side G h p)"
proof -
  show 1: "pop_front G h q = (if 0 < side G h p then pop_front G h (tl q) else Inr q)"
    using assms by (subst pop_front.simps) simp
  have "pop_front G h (tl q) \<noteq> Inr q"
    using pop_front_length [of G h "tl q" q] assms(1) by auto
  with 1 show "(pop_front G h q = Inr q) = (\<not> 0 < side G h p)" by auto
qed

lemma trim_back_step:
  assumes "3 \<le> length q" and "intersection G (last q) (last (butlast q)) = Inr p"
  shows "trim_back G q = (if 0 < side G (hd q) p then trim_back G (butlast q) else Inr q)"
    and "(trim_back G q = Inr q) = (\<not> 0 < side G (hd q) p)"
proof -
  show 1: "trim_back G q = (if 0 < side G (hd q) p then trim_back G (butlast q) else Inr q)"
    using assms by (subst trim_back.simps) simp
  have "trim_back G (butlast q) \<noteq> Inr q"
    using trim_back_length [of G "butlast q" q] assms(1) by auto
  with 1 show "(trim_back G q = Inr q) = (\<not> 0 < side G (hd q) p)" by auto
qed

lemma trim_front_step:
  assumes "3 \<le> length q" and "intersection G (hd q) (hd (tl q)) = Inr p"
  shows "trim_front G q = (if 0 < side G (last q) p then trim_front G (tl q) else Inr q)"
    and "(trim_front G q = Inr q) = (\<not> 0 < side G (last q) p)"
proof -
  show 1: "trim_front G q = (if 0 < side G (last q) p then trim_front G (tl q) else Inr q)"
    using assms by (subst trim_front.simps) simp
  have "trim_front G (tl q) \<noteq> Inr q"
    using trim_front_length [of G "tl q" q] assms(1) by auto
  with 1 show "(trim_front G q = Inr q) = (\<not> 0 < side G (last q) p)" by auto
qed

text \<open>
  Claim C7, as amended. Neither a tolerance nor a bounding magnitude is an input of the
  call: every call builds its bounding halfplane from the module constant
  \<open>INF = 10**18\<close>, and the function uses no tolerance. For every line class and every
  deque, each of the four loops (back and front loop of the sweep, back and front loop
  of the final trim), at a state where its length test holds and \<open>intersection\<close> returns
  the point \<open>p\<close>, pops and goes on if the side value at \<open>p\<close> is \<open>> 0\<close> and stops
  otherwise, so that it leaves the deque as it is exactly when the side value is not
  \<open>> 0\<close>. In the parallel case the call returns the empty polygon exactly when
  \<open>d1 * d2 < 0\<close>, and otherwise replaces the back element when \<open>side > 0\<close> and discards
  the incoming halfplane when not; whether two lines count as parallel is what the
  method \<open>parallel\<close> of the line class answers. So every comparison of a side value or
  of the inner product is a strict comparison with exactly zero.
\<close>

theorem side_comparisons_are_with_zero:
  "(2 \<le> length q \<and> intersection G (last q) (last (butlast q)) = Inr p \<longrightarrow>
      pop_back G h q = (if 0 < side G h p then pop_back G h (butlast q) else Inr q) \<and>
      (pop_back G h q = Inr q) = (\<not> 0 < side G h p)) \<and>
   (2 \<le> length q \<and> intersection G (hd q) (hd (tl q)) = Inr p' \<longrightarrow>
      pop_front G h q = (if 0 < side G h p' then pop_front G h (tl q) else Inr q) \<and>
      (pop_front G h q = Inr q) = (\<not> 0 < side G h p')) \<and>
   (3 \<le> length q \<and> intersection G (last q) (last (butlast q)) = Inr p \<longrightarrow>
      trim_back G q = (if 0 < side G (hd q) p then trim_back G (butlast q) else Inr q) \<and>
      (trim_back G q = Inr q) = (\<not> 0 < side G (hd q) p)) \<and>
   (3 \<le> length q \<and> intersection G (hd q) (hd (tl q)) = Inr p' \<longrightarrow>
      trim_front G q = (if 0 < side G (last q) p' then trim_front G (tl q) else Inr q) \<and>
      (trim_front G q = Inr q) = (\<not> 0 < side G (last q) p')) \<and>
   (q \<noteq> [] \<and> parallel G h (last q) \<longrightarrow>
      (parallel_case G h q = Return_Empty) = (dot G (d_l h) (d_l (last q)) < 0) \<and>
      (\<not> dot G (d_l h) (d_l (last q)) < 0 \<longrightarrow>
         parallel_case G h q =
           (if 0 < side G h (o_l (last q)) then Next_Round (butlast q @ [h])
            else Next_Round q))) \<and>
   (q = [] \<or> \<not> parallel G h (last q) \<longrightarrow> parallel_case G h q = Next_Round (q @ [h])) \<and>
   new_bb hp = (length hp, hp @ [L (P (- (10 ^ 18)) (- (10 ^ 18))) (P (10 ^ 18) 0)])"
proof (intro conjI impI)
  assume "2 \<le> length q \<and> intersection G (last q) (last (butlast q)) = Inr p"
  then have a: "2 \<le> length q" "intersection G (last q) (last (butlast q)) = Inr p"
    by blast+
  from pop_back_step(1) [OF a]
  show "pop_back G h q = (if 0 < side G h p then pop_back G h (butlast q) else Inr q)" .
  from pop_back_step(2) [OF a]
  show "(pop_back G h q = Inr q) = (\<not> 0 < side G h p)" .
next
  assume "2 \<le> length q \<and> intersection G (hd q) (hd (tl q)) = Inr p'"
  then have a: "2 \<le> length q" "intersection G (hd q) (hd (tl q)) = Inr p'"
    by blast+
  from pop_front_step(1) [OF a]
  show "pop_front G h q = (if 0 < side G h p' then pop_front G h (tl q) else Inr q)" .
  from pop_front_step(2) [OF a]
  show "(pop_front G h q = Inr q) = (\<not> 0 < side G h p')" .
next
  assume "3 \<le> length q \<and> intersection G (last q) (last (butlast q)) = Inr p"
  then have a: "3 \<le> length q" "intersection G (last q) (last (butlast q)) = Inr p"
    by blast+
  from trim_back_step(1) [OF a]
  show "trim_back G q = (if 0 < side G (hd q) p then trim_back G (butlast q) else Inr q)" .
  from trim_back_step(2) [OF a]
  show "(trim_back G q = Inr q) = (\<not> 0 < side G (hd q) p)" .
next
  assume "3 \<le> length q \<and> intersection G (hd q) (hd (tl q)) = Inr p'"
  then have a: "3 \<le> length q" "intersection G (hd q) (hd (tl q)) = Inr p'"
    by blast+
  from trim_front_step(1) [OF a]
  show "trim_front G q = (if 0 < side G (last q) p' then trim_front G (tl q) else Inr q)" .
  from trim_front_step(2) [OF a]
  show "(trim_front G q = Inr q) = (\<not> 0 < side G (last q) p')" .
next
  assume a: "q \<noteq> [] \<and> parallel G h (last q)"
  then show "(parallel_case G h q = Return_Empty) = (dot G (d_l h) (d_l (last q)) < 0)"
    by (simp add: parallel_case_def)
  assume "\<not> dot G (d_l h) (d_l (last q)) < 0"
  with a show "parallel_case G h q =
      (if 0 < side G h (o_l (last q)) then Next_Round (butlast q @ [h]) else Next_Round q)"
    by (simp add: parallel_case_def)
next
  assume "q = [] \<or> \<not> parallel G h (last q)"
  then show "parallel_case G h q = Next_Round (q @ [h])"
    by (auto simp: parallel_case_def)
next
  show "new_bb hp = (length hp, hp @ [L (P (- (10 ^ 18)) (- (10 ^ 18))) (P (10 ^ 18) 0)])"
    by (simp add: new_bb_def INF_c_def)
qed

theorem side_comparisons_are_with_zero_witness:
  "intersection (spec_geom (1 / 10 ^ 9)) (L (P 0 0) (P 0 1)) (L (P 0 0) (P 1 0)) = Inr (P 0 0) \<and>
   intersection (spec_geom (1 / 10 ^ 9)) (L (P 0 0) (P 1 0)) (L (P 0 0) (P 0 1)) = Inr (P 0 0) \<and>
   0 < side (spec_geom (1 / 10 ^ 9)) (L (P 0 (- (5 / 10 ^ 10))) (P 1 0)) (P 0 0) \<and>
   side (spec_geom (1 / 10 ^ 9)) (L (P 0 (- (5 / 10 ^ 10))) (P 1 0)) (P 0 0) \<le> 1 / 10 ^ 9 \<and>
   (pop_back (spec_geom (1 / 10 ^ 9)) (L (P 0 (- (5 / 10 ^ 10))) (P 1 0))
        [L (P 0 0) (P 1 0), L (P 0 0) (P 0 1)]
      = Inr [L (P 0 0) (P 1 0), L (P 0 0) (P 0 1)])
     = (\<not> 0 < side (spec_geom (1 / 10 ^ 9)) (L (P 0 (- (5 / 10 ^ 10))) (P 1 0)) (P 0 0)) \<and>
   (pop_front (spec_geom (1 / 10 ^ 9)) (L (P 0 (- (5 / 10 ^ 10))) (P 1 0))
        [L (P 0 0) (P 1 0), L (P 0 0) (P 0 1)]
      = Inr [L (P 0 0) (P 1 0), L (P 0 0) (P 0 1)])
     = (\<not> 0 < side (spec_geom (1 / 10 ^ 9)) (L (P 0 (- (5 / 10 ^ 10))) (P 1 0)) (P 0 0)) \<and>
   (trim_back (spec_geom (1 / 10 ^ 9))
        [L (P 0 (- (5 / 10 ^ 10))) (P 1 0), L (P 0 0) (P 1 0), L (P 0 0) (P 0 1)]
      = Inr [L (P 0 (- (5 / 10 ^ 10))) (P 1 0), L (P 0 0) (P 1 0), L (P 0 0) (P 0 1)])
     = (\<not> 0 < side (spec_geom (1 / 10 ^ 9))
          (hd [L (P 0 (- (5 / 10 ^ 10))) (P 1 0), L (P 0 0) (P 1 0), L (P 0 0) (P 0 1)])
          (P 0 0)) \<and>
   (trim_front (spec_geom (1 / 10 ^ 9))
        [L (P 0 0) (P 1 0), L (P 0 0) (P 0 1), L (P 0 (- (5 / 10 ^ 10))) (P 1 0)]
      = Inr [L (P 0 0) (P 1 0), L (P 0 0) (P 0 1), L (P 0 (- (5 / 10 ^ 10))) (P 1 0)])
     = (\<not> 0 < side (spec_geom (1 / 10 ^ 9))
          (last [L (P 0 0) (P 1 0), L (P 0 0) (P 0 1), L (P 0 (- (5 / 10 ^ 10))) (P 1 0)])
          (P 0 0)) \<and>
   parallel (spec_geom (1 / 10 ^ 9)) (L (P 0 (- (5 / 10 ^ 10))) (P 1 0))
     (last [L (P 0 0) (P 1 0)]) \<and>
   (parallel_case (spec_geom (1 / 10 ^ 9)) (L (P 0 (- (5 / 10 ^ 10))) (P 1 0))
        [L (P 0 0) (P 1 0)] = Return_Empty)
     = (dot (spec_geom (1 / 10 ^ 9)) (d_l (L (P 0 (- (5 / 10 ^ 10))) (P 1 0)))
          (d_l (last [L (P 0 0) (P 1 0)])) < 0) \<and>
   parallel_case (spec_geom (1 / 10 ^ 9)) (L (P 0 (- (5 / 10 ^ 10))) (P 1 0))
       [L (P 0 0) (P 1 0)]
     = (if 0 < side (spec_geom (1 / 10 ^ 9)) (L (P 0 (- (5 / 10 ^ 10))) (P 1 0))
               (o_l (last [L (P 0 0) (P 1 0)]))
        then Next_Round (butlast [L (P 0 0) (P 1 0)] @ [L (P 0 (- (5 / 10 ^ 10))) (P 1 0)])
        else Next_Round [L (P 0 0) (P 1 0)]) \<and>
   parallel_case (spec_geom (1 / 10 ^ 9)) (L (P 0 (- (5 / 10 ^ 10))) (P 1 0)) []
     = Next_Round ([] @ [L (P 0 (- (5 / 10 ^ 10))) (P 1 0)])"
proof -
  let ?G = "spec_geom (1 / 10 ^ 9)" and ?h = "L (P 0 (- (5 / 10 ^ 10))) (P 1 0)"
  let ?x = "L (P 0 0) (P 1 0)" and ?y = "L (P 0 0) (P 0 1)"
  have ib: "intersection ?G ?y ?x = Inr (P 0 0)" by (simp add: geom_simps)
  have i'': "intersection ?G ?x ?y = Inr (P 0 0)" by (simp add: geom_simps)
  have s: "0 < side ?G ?h (P 0 0)" "side ?G ?h (P 0 0) \<le> 1 / 10 ^ 9"
    by (simp_all add: geom_simps)
  have b2: "2 \<le> length [?x, ?y] \<and>
      intersection ?G (last [?x, ?y]) (last (butlast [?x, ?y])) = Inr (P 0 0)"
    using ib by simp
  have f2: "2 \<le> length [?x, ?y] \<and>
      intersection ?G (hd [?x, ?y]) (hd (tl [?x, ?y])) = Inr (P 0 0)"
    using i'' by simp
  have b3: "3 \<le> length [?h, ?x, ?y] \<and>
      intersection ?G (last [?h, ?x, ?y]) (last (butlast [?h, ?x, ?y])) = Inr (P 0 0)"
    using ib by simp
  have f3: "3 \<le> length [?x, ?y, ?h] \<and>
      intersection ?G (hd [?x, ?y, ?h]) (hd (tl [?x, ?y, ?h])) = Inr (P 0 0)"
    using i'' by simp
  have par: "parallel ?G ?h (last [?x])" by (simp add: geom_simps)
  have pq: "[?x] \<noteq> [] \<and> parallel ?G ?h (last [?x])" using par by simp
  have nd: "\<not> dot ?G (d_l ?h) (d_l (last [?x])) < 0" by (simp add: geom_simps)
  have em: "([] :: L list) = [] \<or> \<not> parallel ?G ?h (last [])" by simp
  note t2 = side_comparisons_are_with_zero
    [where G = ?G and h = ?h and q = "[?x, ?y]" and p = "P 0 0" and p' = "P 0 0" and hp = "[]"]
  note t3 = side_comparisons_are_with_zero
    [where G = ?G and h = ?h and q = "[?h, ?x, ?y]" and p = "P 0 0" and p' = "P 0 0"
       and hp = "[]"]
  note t4 = side_comparisons_are_with_zero
    [where G = ?G and h = ?h and q = "[?x, ?y, ?h]" and p = "P 0 0" and p' = "P 0 0"
       and hp = "[]"]
  note t1 = side_comparisons_are_with_zero
    [where G = ?G and h = ?h and q = "[?x]" and p = "P 0 0" and p' = "P 0 0" and hp = "[]"]
  note t0 = side_comparisons_are_with_zero
    [where G = ?G and h = ?h and q = "[]" and p = "P 0 0" and p' = "P 0 0" and hp = "[]"]
  note c1 = mp [OF conjunct1 [OF t2] b2, THEN conjunct2]
  note c2 = mp [OF t2 [THEN conjunct2, THEN conjunct1] f2, THEN conjunct2]
  note c3 = mp [OF t3 [THEN conjunct2, THEN conjunct2, THEN conjunct1] b3, THEN conjunct2]
  note c4 = mp [OF t4 [THEN conjunct2, THEN conjunct2, THEN conjunct2, THEN conjunct1] f3,
    THEN conjunct2]
  note c5 = mp [OF t1 [THEN conjunct2, THEN conjunct2, THEN conjunct2, THEN conjunct2,
    THEN conjunct1] pq]
  note c6 = mp [OF t0 [THEN conjunct2, THEN conjunct2, THEN conjunct2, THEN conjunct2,
    THEN conjunct2, THEN conjunct1] em]
  show ?thesis
    using ib i'' s c1 c2 c3 c4 par conjunct1 [OF c5] mp [OF conjunct2 [OF c5] nd] c6
    by (intro conjI)
qed

text \<open>
  Claim C7 as stated fails. With the tolerance \<open>1e-9\<close>, the side values \<open>5e-10\<close> and \<open>0\<close>
  both lie within the tolerance of zero, and the loop of the sweep pops at the first and
  does not pop at the second: the comparison is with zero, not with the tolerance.
\<close>

theorem side_compared_with_zero_counterexample:
  "\<bar>side (spec_geom (1 / 10 ^ 9)) (L (P 0 (- (5 / 10 ^ 10))) (P 1 0)) (P 0 0)\<bar> \<le> 1 / 10 ^ 9 \<and>
   pop_back (spec_geom (1 / 10 ^ 9)) (L (P 0 (- (5 / 10 ^ 10))) (P 1 0))
       [L (P 0 0) (P 1 0), L (P 0 0) (P 0 1)]
     = Inr [L (P 0 0) (P 1 0)] \<and>
   \<bar>side (spec_geom (1 / 10 ^ 9)) (L (P 0 0) (P 1 0)) (P 0 0)\<bar> \<le> 1 / 10 ^ 9 \<and>
   pop_back (spec_geom (1 / 10 ^ 9)) (L (P 0 0) (P 1 0))
       [L (P 0 0) (P 1 0), L (P 0 0) (P 0 1)]
     = Inr [L (P 0 0) (P 1 0), L (P 0 0) (P 0 1)]"
  by (simp add: geom_simps loop_simps)

end
